theory Spec2Isabelle
  imports Complex_Main
begin

section \<open>Behavioural biometrics buffers (frontend/src/services/advancedProctoring.js)\<close>

text \<open>
  The class \<open>AdvancedProctoringService\<close> keeps two sliding buffers (key strokes and
  mouse movements) and two baseline profiles. Its fields become a record and each
  method a function from the state before the call to the result and the state after.

  The profile objects hold IEEE doubles (averages, a square root, a ratio). Their
  arithmetic is not reproduced: the three numeric routines are the fields of
  \<open>numerics\<close>, and only the part of each method that decides between \<open>null\<close> and an
  object is written out, as in the source. The field \<open>tfModel\<close> and the methods that
  write none of the fields below (face detection, pairing, device detection) are left
  out.
\<close>

record keystroke =
  ks_key :: string
  ks_timestamp :: int
  ks_duration :: int
  ks_pressure :: real

record movement =
  mv_x :: int
  mv_y :: int
  mv_timestamp :: int
  mv_type :: string

text \<open>What the methods read of the DOM event they are given.\<close>

record key_event =
  ev_key :: string
  ev_pressure :: "real option"

record mouse_event =
  ev_clientX :: int
  ev_clientY :: int
  ev_type :: string

record 'p numerics =
  typing_stats :: "keystroke list \<Rightarrow> 'p"
  mouse_stats :: "movement list \<Rightarrow> 'p"
  deviation :: "'p \<Rightarrow> 'p \<Rightarrow> real"

record anomaly_report =
  anomaly :: string
  confidence :: real
  message :: string

record 'p service =
  keystrokeBuffer :: "keystroke list"
  mouseBuffer :: "movement list"
  baselineTyping :: "'p option"
  baselineMouse :: "'p option"
  stressLevel :: real

text \<open>The constructor.\<close>

definition new_service :: "'p service" where
  "new_service =
     \<lparr>keystrokeBuffer = [], mouseBuffer = [], baselineTyping = None,
      baselineMouse = None, stressLevel = 0\<rparr>"

text \<open>\<open>calculateTypingProfile\<close> and \<open>calculateMouseProfile\<close>: \<open>null\<close> below two samples.\<close>

definition calculateTypingProfile :: "'p numerics \<Rightarrow> keystroke list \<Rightarrow> 'p option" where
  "calculateTypingProfile N keystrokes =
     (if length keystrokes < 2 then None else Some (typing_stats N keystrokes))"

definition calculateMouseProfile :: "'p numerics \<Rightarrow> movement list \<Rightarrow> 'p option" where
  "calculateMouseProfile N movements =
     (if length movements < 2 then None else Some (mouse_stats N movements))"

text \<open>\<open>compareProfiles\<close>: zero when either profile is \<open>null\<close>.\<close>

definition compareProfiles :: "'p numerics \<Rightarrow> 'p option \<Rightarrow> 'p option \<Rightarrow> real" where
  "compareProfiles N baseline current =
     (case baseline of
        None \<Rightarrow> 0
      | Some b \<Rightarrow> (case current of None \<Rightarrow> 0 | Some c \<Rightarrow> deviation N b c))"

text \<open>\<open>xs.slice(-n)\<close>: the last \<open>n\<close> entries, all of them when there are fewer.\<close>

definition slice_last :: "nat \<Rightarrow> 'a list \<Rightarrow> 'a list" where
  "slice_last n xs = drop (length xs - n) xs"

text \<open>
  \<open>captureKeystroke(event)\<close>, with \<open>now\<close> the value of \<open>Date.now()\<close>. The entry is
  pushed, the oldest one is shifted out above 100 entries, the baseline is computed
  when there is none and the buffer holds 50 entries, and the last 20 entries are
  compared with the baseline.
\<close>

definition captureKeystroke ::
  "'p numerics \<Rightarrow> int \<Rightarrow> key_event \<Rightarrow> 'p service \<Rightarrow> anomaly_report option \<times> 'p service" where
  "captureKeystroke N now event s =
     (let keystroke = \<lparr>ks_key = ev_key event, ks_timestamp = now, ks_duration = 0,
                        ks_pressure = (case ev_pressure event of None \<Rightarrow> 0 | Some p \<Rightarrow> p)\<rparr>;
          pushed = keystrokeBuffer s @ [keystroke];
          buffer = (if length pushed > 100 then tl pushed else pushed);
          baseline = (if baselineTyping s = None \<and> length buffer \<ge> 50
                      then calculateTypingProfile N buffer else baselineTyping s);
          s' = s\<lparr>keystrokeBuffer := buffer, baselineTyping := baseline\<rparr>
      in if baseline \<noteq> None \<and> length buffer \<ge> 20
         then (let currentProfile = calculateTypingProfile N (slice_last 20 buffer);
                   d = compareProfiles N baseline currentProfile
               in if d > 0.35
                  then (Some \<lparr>anomaly = ''typing_pattern_change'', confidence = min d 0.975,
                              message = ''Abrupt change in typing pattern detected''\<rparr>, s')
                  else (None, s'))
         else (None, s'))"

text \<open>\<open>captureMouseMovement(event)\<close>: the same shape with 200, 100 and 50.\<close>

definition captureMouseMovement ::
  "'p numerics \<Rightarrow> int \<Rightarrow> mouse_event \<Rightarrow> 'p service \<Rightarrow> anomaly_report option \<times> 'p service" where
  "captureMouseMovement N now event s =
     (let movement = \<lparr>mv_x = ev_clientX event, mv_y = ev_clientY event, mv_timestamp = now,
                       mv_type = ev_type event\<rparr>;
          pushed = mouseBuffer s @ [movement];
          buffer = (if length pushed > 200 then tl pushed else pushed);
          baseline = (if baselineMouse s = None \<and> length buffer \<ge> 100
                      then calculateMouseProfile N buffer else baselineMouse s);
          s' = s\<lparr>mouseBuffer := buffer, baselineMouse := baseline\<rparr>
      in if baseline \<noteq> None \<and> length buffer \<ge> 50
         then (let currentProfile = calculateMouseProfile N (slice_last 50 buffer);
                   d = compareProfiles N baseline currentProfile
               in if d > 0.40
                  then (Some \<lparr>anomaly = ''mouse_pattern_change'', confidence = min d 0.975,
                              message = ''Unusual mouse movement pattern detected''\<rparr>, s')
                  else (None, s'))
         else (None, s'))"

text \<open>\<open>reset()\<close>.\<close>

definition reset :: "'p service \<Rightarrow> 'p service" where
  "reset s =
     s\<lparr>keystrokeBuffer := [], mouseBuffer := [], baselineTyping := None,
       baselineMouse := None, stressLevel := 0\<rparr>"

text \<open>
  \<open>detectStressLevel\<close> reads the buffers and baselines and writes \<open>stressLevel\<close> only;
  the score it stores is floating point and comes in as \<open>score\<close>.
\<close>

definition detectStressLevel :: "real \<Rightarrow> 'p service \<Rightarrow> 'p service" where
  "detectStressLevel score s = s\<lparr>stressLevel := score\<rparr>"

text \<open>The calls a client can make on the service, and a run of them from a state.\<close>

datatype call =
    CaptureKeystroke int key_event
  | CaptureMouseMovement int mouse_event
  | DetectStressLevel real
  | Reset

fun perform :: "'p numerics \<Rightarrow> call \<Rightarrow> 'p service \<Rightarrow> 'p service" where
  "perform N (CaptureKeystroke now e) s = snd (captureKeystroke N now e s)"
| "perform N (CaptureMouseMovement now e) s = snd (captureMouseMovement N now e s)"
| "perform N (DetectStressLevel score) s = detectStressLevel score s"
| "perform N Reset s = reset s"

fun run :: "'p numerics \<Rightarrow> call list \<Rightarrow> 'p service \<Rightarrow> 'p service" where
  "run N [] s = s"
| "run N (c # cs) s = run N cs (perform N c s)"

definition bounded :: "'p service \<Rightarrow> bool" where
  "bounded s = (length (keystrokeBuffer s) \<le> 100 \<and> length (mouseBuffer s) \<le> 200)"

text \<open>
  A concrete service for the examples: the profile of a buffer is its length, and no
  two profiles deviate.
\<close>

definition demo_numerics :: "nat numerics" where
  "demo_numerics = \<lparr>typing_stats = length, mouse_stats = length, deviation = (\<lambda>a b. 0)\<rparr>"

definition demo_key :: call where
  "demo_key = CaptureKeystroke 1700000000000 \<lparr>ev_key = ''a'', ev_pressure = None\<rparr>"

definition demo_move :: call where
  "demo_move =
     CaptureMouseMovement 1700000000000 \<lparr>ev_clientX = 10, ev_clientY = 20, ev_type = ''mousemove''\<rparr>"

definition demo_state :: "nat service" where
  "demo_state = run demo_numerics (replicate 50 demo_key @ replicate 100 demo_move) new_service"

definition demo_calls :: "call list" where
  "demo_calls = replicate 80 demo_key @ DetectStressLevel 0 # replicate 150 demo_move"

section \<open>Event throttle of the face monitor (frontend/src/components/proctoring/FaceMonitor.jsx)\<close>

text \<open>
  A proctoring event is the object the monitors hand to \<open>onEvent\<close>: its type tag, a
  description and a metadata object. Metadata values are strings or numbers; the
  object is a finite map, and the spread \<open>{a, b, c, ...extra}\<close> is the map \<open>++\<close>, in
  which the right operand wins.
\<close>

datatype jsval = JStr string | JNum real

record proctoring_event =
  event_type :: string
  description :: string
  metadata :: "string \<rightharpoonup> jsval"

text \<open>
  \<open>lastEventTimeRef.current\<close>: the time of the last emission per event type, in
  milliseconds. The keys are the event tags the monitor passes (\<open>no_face\<close>,
  \<open>multiple_faces\<close>); property names that every JavaScript object inherits are not tags
  and are outside this map.
\<close>

type_synonym throttle_ref = "string \<rightharpoonup> int"

text \<open>\<open>lastEventTimeRef.current[eventType] || 0\<close>.\<close>

definition lastTime :: "throttle_ref \<Rightarrow> string \<Rightarrow> int" where
  "lastTime r eventType = (case r eventType of None \<Rightarrow> 0 | Some t \<Rightarrow> t)"

text \<open>
  \<open>triggerEvent(eventType, description, confidence, extraMetadata)\<close>, with \<open>now\<close> the
  value of \<open>Date.now()\<close> and \<open>stamp\<close> that of \<open>new Date().toISOString()\<close>. The result is
  the event handed to \<open>onEvent\<close>, if any, and the reference after the call.
\<close>

definition triggerEvent ::
  "int \<Rightarrow> string \<Rightarrow> string \<Rightarrow> string \<Rightarrow> real \<Rightarrow> (string \<rightharpoonup> jsval) \<Rightarrow> throttle_ref
     \<Rightarrow> proctoring_event option \<times> throttle_ref" where
  "triggerEvent now stamp eventType descr conf extraMetadata r =
     (if now - lastTime r eventType < 2000 then (None, r)
      else (Some \<lparr>event_type = eventType, description = descr,
                  metadata = [''confidence_score'' \<mapsto> JNum conf, ''timestamp'' \<mapsto> JStr stamp,
                              ''source'' \<mapsto> JStr ''mediapipe_face_detection''] ++ extraMetadata\<rparr>,
            r(eventType \<mapsto> now)))"

text \<open>A raw signal is one call of \<open>triggerEvent\<close>; a run of calls collects what was emitted.\<close>

record raw_signal =
  sg_now :: int
  sg_iso :: string
  sg_type :: string
  sg_description :: string
  sg_confidence :: real
  sg_extra :: "string \<rightharpoonup> jsval"

definition trigger :: "raw_signal \<Rightarrow> throttle_ref \<Rightarrow> proctoring_event option \<times> throttle_ref" where
  "trigger g r =
     triggerEvent (sg_now g) (sg_iso g) (sg_type g) (sg_description g) (sg_confidence g)
       (sg_extra g) r"

fun feed :: "raw_signal list \<Rightarrow> throttle_ref \<Rightarrow> proctoring_event list \<times> throttle_ref" where
  "feed [] r = ([], r)"
| "feed (g # gs) r =
     (case trigger g r of
        (None, r') \<Rightarrow> feed gs r'
      | (Some e, r') \<Rightarrow> (case feed gs r' of (es, r'') \<Rightarrow> (e # es, r'')))"

section \<open>Event handling of the exam session page (ExamSessionPage, src/unnamed/part_004)\<close>

text \<open>
  The handlers of the page read the component state (\<open>attemptId\<close>, \<open>proctoringActive\<close>,
  \<open>events\<close>, \<open>answers\<close>), call the backend, and show alerts. One run of a handler is a
  function from the state it reads to the list of effects it performs, in order, and
  the state it writes. What the backend and the user answer during the run is the
  record \<open>world\<close>: a request either completes or throws.
\<close>

datatype outcome = Completed | Failed

datatype effect =
    TerminateAttempt string string string string outcome
  | LogEvent string string string "string \<rightharpoonup> jsval" outcome
  | SubmitAttempt string "string \<rightharpoonup> string" outcome
  | CloseSocket
  | Alert string
  | Navigate string
  | ConsoleError string

text \<open>
  \<open>TerminateAttempt a reason event_type terminated_at\<close> is the request
  \<open>POST /attempts/a/terminate/\<close> with body \<open>{reason, event_type, metadata: {terminated_at}}\<close>;
  \<open>LogEvent a event_type description metadata\<close> is \<open>POST /proctoring/event\<close>.
\<close>

record world =
  clock :: string
  terminate_reply :: outcome
  log_reply :: outcome
  submit_reply :: outcome
  submit_error :: string
  confirm_reply :: bool
  socket_open :: bool

record page =
  attemptId :: "string option"
  proctoringActive :: bool
  events :: "(proctoring_event \<times> string) list"
  answers :: "string \<rightharpoonup> string"

text \<open>\<open>!attemptId\<close>: \<open>null\<close> and the empty string are falsy.\<close>

definition no_attempt :: "page \<Rightarrow> bool" where
  "no_attempt s = (case attemptId s of None \<Rightarrow> True | Some a \<Rightarrow> a = [])"

definition the_attempt :: "page \<Rightarrow> string" where
  "the_attempt s = (case attemptId s of None \<Rightarrow> [] | Some a \<Rightarrow> a)"

text \<open>\<open>autoTerminate(reason, eventType)\<close>.\<close>

definition autoTerminate :: "world \<Rightarrow> string \<Rightarrow> string \<Rightarrow> page \<Rightarrow> effect list \<times> page" where
  "autoTerminate w reason eventType s =
     (if no_attempt s then ([], s)
      else if \<not> proctoringActive s then ([], s)
      else (case terminate_reply w of
              Completed \<Rightarrow>
                ([TerminateAttempt (the_attempt s) reason eventType (clock w) Completed,
                  Alert (''Exam Terminated: '' @ reason),
                  Navigate ''/exams''],
                 s\<lparr>proctoringActive := False\<rparr>)
            | Failed \<Rightarrow>
                ([TerminateAttempt (the_attempt s) reason eventType (clock w) Failed,
                  ConsoleError ''Failed to terminate exam:'',
                  Alert ''Exam terminated due to violation.'',
                  Navigate ''/exams''],
                 s\<lparr>proctoringActive := False\<rparr>)))"

text \<open>\<open>handleProctoringEvent(event)\<close>.\<close>

definition handleProctoringEvent :: "world \<Rightarrow> proctoring_event \<Rightarrow> page \<Rightarrow> effect list \<times> page" where
  "handleProctoringEvent w event s =
     (if no_attempt s then ([], s)
      else if event_type event = ''multiple_faces''
        then autoTerminate w ''Multiple persons detected'' ''multiple_faces'' s
      else if event_type event = ''tab_switch''
        then autoTerminate w ''Tab/Window switch detected'' ''tab_switch'' s
      else if event_type event = ''window_blur''
        then autoTerminate w ''Window lost focus'' ''window_blur'' s
      else (case log_reply w of
              Completed \<Rightarrow>
                ([LogEvent (the_attempt s) (event_type event) (description event)
                    (metadata event) Completed],
                 s\<lparr>events := take 10 ((event, clock w) # events s)\<rparr>)
            | Failed \<Rightarrow>
                ([LogEvent (the_attempt s) (event_type event) (description event)
                    (metadata event) Failed,
                  ConsoleError ''Failed to log event:''],
                 s)))"

text \<open>\<open>handleSubmit()\<close>.\<close>

definition handleSubmit :: "world \<Rightarrow> page \<Rightarrow> effect list \<times> page" where
  "handleSubmit w s =
     (if no_attempt s then ([], s)
      else if \<not> confirm_reply w then ([], s)
      else (case submit_reply w of
              Completed \<Rightarrow>
                ((if socket_open w then [CloseSocket] else []) @
                 [SubmitAttempt (the_attempt s) (answers s) Completed,
                  Alert ''Exam submitted successfully!'',
                  Navigate ''/dashboard''],
                 s\<lparr>proctoringActive := False\<rparr>)
            | Failed \<Rightarrow>
                ((if socket_open w then [CloseSocket] else []) @
                 [SubmitAttempt (the_attempt s) (answers s) Failed,
                  ConsoleError ''Failed to submit exam:'',
                  Alert (''Failed to submit exam: '' @ submit_error w)],
                 s\<lparr>proctoringActive := False\<rparr>)))"

text \<open>
  The listeners of the browser events (\<open>visibilitychange\<close>, \<open>blur\<close>, \<open>copy\<close>, \<open>paste\<close>,
  \<open>cut\<close>, \<open>contextmenu\<close>, \<open>keydown\<close>, \<open>fullscreenchange\<close>) are registered by the effect
  of l.138-297, whose dependencies are \<open>[exam, attemptId]\<close>. They call the
  \<open>handleProctoringEvent\<close> of the render in which the effect ran, for as long as \<open>exam\<close>
  and \<open>attemptId\<close> stay what they are: every run reads the \<open>attemptId\<close> and the
  \<open>proctoringActive\<close> of that render (\<open>held\<close>), whatever an earlier run has written with
  \<open>setProctoringActive\<close>. \<open>listener_effects held runs\<close> is what a sequence of such runs
  performs, run by run; each run comes with the answers of the world during it.
\<close>

fun listener_effects :: "page \<Rightarrow> (world \<times> proctoring_event) list \<Rightarrow> effect list" where
  "listener_effects held [] = []"
| "listener_effects held ((w, event) # runs) =
     fst (handleProctoringEvent w event held) @ listener_effects held runs"

text \<open>
  The event types that end the session, and the observations the statements below
  are about: whether a run issued a terminate request, whether one completed, whether
  it told the student that the exam is terminated, and what it logged.
\<close>

definition auto_terminate_types :: "string list" where
  "auto_terminate_types = [''multiple_faces'', ''tab_switch'', ''window_blur'']"

fun is_terminate_request :: "effect \<Rightarrow> bool" where
  "is_terminate_request (TerminateAttempt a reason t ts out) = True"
| "is_terminate_request e = False"

fun is_recorded_termination :: "effect \<Rightarrow> bool" where
  "is_recorded_termination (TerminateAttempt a reason t ts out) = (out = Completed)"
| "is_recorded_termination e = False"

fun is_log_request :: "effect \<Rightarrow> bool" where
  "is_log_request (LogEvent a t d m out) = True"
| "is_log_request e = False"

fun reports_termination :: "effect \<Rightarrow> bool" where
  "reports_termination (Alert text) =
     (take 15 text = ''Exam Terminated'' \<or> text = ''Exam terminated due to violation.'')"
| "reports_termination (Navigate path) = (path = ''/exams'')"
| "reports_termination e = False"

text \<open>
  \<open>recorded_before_report fx\<close>: every effect of \<open>fx\<close> that tells the student about the
  termination comes after a terminate request that completed.
\<close>

fun recorded_before_report :: "effect list \<Rightarrow> bool" where
  "recorded_before_report [] = True"
| "recorded_before_report (e # fx) =
     (if is_recorded_termination e then True
      else \<not> reports_termination e \<and> recorded_before_report fx)"

text \<open>Signals for the examples: two \<open>no_face\<close> half a second apart, and a \<open>multiple_faces\<close>.\<close>

definition demo_no_face :: "int \<Rightarrow> raw_signal" where
  "demo_no_face t =
     \<lparr>sg_now = t, sg_iso = ''2023-11-14T22:13:20.000Z'', sg_type = ''no_face'',
      sg_description = ''No face detected'', sg_confidence = 0.9, sg_extra = Map.empty\<rparr>"

definition demo_multiple_faces :: "int \<Rightarrow> raw_signal" where
  "demo_multiple_faces t =
     \<lparr>sg_now = t, sg_iso = ''2023-11-14T22:13:20.500Z'', sg_type = ''multiple_faces'',
      sg_description = ''2 faces detected'', sg_confidence = 0.95,
      sg_extra = [''face_count'' \<mapsto> JNum 2]\<rparr>"

text \<open>A session, two answers of the world and three events for the examples.\<close>

definition demo_page :: page where
  "demo_page =
     \<lparr>attemptId = Some ''a1'', proctoringActive = True, events = [], answers = Map.empty\<rparr>"

definition demo_world :: "outcome \<Rightarrow> world" where
  "demo_world reply =
     \<lparr>clock = ''2026-01-18T10:00:00.000Z'', terminate_reply = reply, log_reply = Completed,
      submit_reply = Completed, submit_error = [], confirm_reply = True, socket_open = True\<rparr>"

definition demo_tab_switch :: proctoring_event where
  "demo_tab_switch =
     \<lparr>event_type = ''tab_switch'', description = ''Student switched tab or window'',
      metadata = [''source'' \<mapsto> JStr ''browser_api'']\<rparr>"

definition demo_window_blur :: proctoring_event where
  "demo_window_blur =
     \<lparr>event_type = ''window_blur'', description = ''Window lost focus'',
      metadata = [''source'' \<mapsto> JStr ''browser_api'']\<rparr>"

definition demo_copy :: proctoring_event where
  "demo_copy =
     \<lparr>event_type = ''copy_attempt'', description = ''Student attempted to copy content'',
      metadata = [''source'' \<mapsto> JStr ''browser_api'']\<rparr>"
section \<open>The persisted attempt status (database schema, src/unnamed/part_002)\<close>













section \<open>Severity table (frontend/src/utils/constants.js)\<close>



section \<open>The hash-chained ledger\<close>

text \<open>
  The backend that keeps the ledger is not among the sources. The block is the one of
  the specification's data model (section 3); the two declarations of the table
  \<open>blockchain_logs\<close> that are among the sources are modelled in the section on the
  ledger tables. A payload is a JSON object of string fields.
\<close>

type_synonym payload = "(string \<times> string) list"

record block =
  sequence_number :: nat
  previous_hash :: "string option"
  current_hash :: string
  bk_event_type :: string
  entity_type :: string
  entity_id :: "string option"
  bk_payload :: payload
  created_at :: string

text \<open>
  The canonical serialisation and the digest (SHA-256 in the repository's documents)
  are parameters: \<open>canonical\<close> is \<open>None\<close> on a payload that cannot be serialised, and
  \<open>digest\<close> maps the seven hashed fields to the hash.
\<close>

type_synonym hashed = "nat \<times> string option \<times> string \<times> string \<times> string option \<times> string \<times> string"

record hasher =
  canonical :: "payload \<Rightarrow> string option"
  digest :: "hashed \<Rightarrow> string"

text \<open>
  Modelled from the spec: the fixed sentinel block of section 4.1, which the backend's
  bootstrap (missing from the sources) creates: sequence number 0, previous hash
  \<open>null\<close>, a well-known constant hash and the event type \<open>system_init\<close>. The
  specification gives the constant no value; the literal that \<open>MANUAL_SETUP.sql\<close>
  (step 7) writes is taken as its name, with the entity type and the payload of that
  row. The ledger of this section has no column widths; what the SQL scripts' own
  \<open>INSERT\<close> of this literal does is the subject of the section on the ledger tables.
\<close>

definition GENESIS_HASH :: string where
  "GENESIS_HASH = ''genesis_block_hash_0000000000000000000000000000000000000000000000000''"

definition genesis_payload :: payload where
  "genesis_payload =
     [(''system'', ''Smart Proctoring System''), (''version'', ''1.0''),
      (''description'', ''Blockchain audit trail initialized'')]"

definition genesis_block :: "string \<Rightarrow> block" where
  "genesis_block now =
     \<lparr>sequence_number = 0, previous_hash = None, current_hash = GENESIS_HASH,
      bk_event_type = ''system_init'', entity_type = ''system'', entity_id = None,
      bk_payload = genesis_payload, created_at = now\<rparr>"

text \<open>
  Modelled from the spec: the bootstrap operation behind \<open>POST /blockchain/initialize\<close>,
  backend code that is missing from the sources (\<open>blockchainService.initializeGenesis\<close> is
  its caller). The specification, section 4.1: the ledger is bootstrapped once with the
  fixed sentinel block; bootstrapping twice is a no-op rather than an error.
\<close>

definition initialize :: "string \<Rightarrow> block list \<Rightarrow> block list" where
  "initialize now ledger = (if ledger = [] then [genesis_block now] else ledger)"

datatype ledger_error = SerializationError | ConflictError

text \<open>
  Modelled from the spec: the read of "the current highest sequence number and its
  hash" that \<open>append\<close> starts with (section 4.1); the ledger is the list of blocks in
  the order of insertion, and the block read is the one with the highest sequence
  number, if any.
\<close>

fun latest :: "block list \<Rightarrow> block option" where
  "latest [] = None"
| "latest (b # bs) =
     (case latest bs of
        None \<Rightarrow> Some b
      | Some c \<Rightarrow> if sequence_number c < sequence_number b then Some b else Some c)"

text \<open>
  Modelled from the spec: \<open>append\<close> of the ledger, backend code that is missing from the
  sources. The specification, section 4.1: it reads the current highest sequence number
  and its hash (the sentinel of sequence 0, \<open>null\<close>, if the ledger is empty), assigns the
  next sequence number, computes the digest over the seven fields and persists the
  block; a payload that cannot be serialised fails with \<open>SerializationError\<close> and
  nothing is persisted. \<open>ConflictError\<close> is the answer to a racing writer; one call at a
  time never meets it.
\<close>

definition append ::
  "hasher \<Rightarrow> string \<Rightarrow> string \<Rightarrow> string \<Rightarrow> string option \<Rightarrow> payload \<Rightarrow> block list
     \<Rightarrow> ledger_error + block \<times> block list" where
  "append H now etype entype enid pl ledger =
     (case canonical H pl of
        None \<Rightarrow> Inl SerializationError
      | Some c \<Rightarrow>
          (let n = (case latest ledger of None \<Rightarrow> 0 | Some l \<Rightarrow> sequence_number l + 1);
               prev = (case latest ledger of None \<Rightarrow> None | Some l \<Rightarrow> Some (current_hash l));
               b = \<lparr>sequence_number = n, previous_hash = prev,
                    current_hash = digest H (n, prev, etype, entype, enid, c, now),
                    bk_event_type = etype, entity_type = entype, entity_id = enid,
                    bk_payload = pl, created_at = now\<rparr>
           in Inr (b, ledger @ [b])))"

text \<open>The operations that write the ledger, and the ledger after a run of them.\<close>

datatype ledger_op =
    Initialize string
  | Append string string string "string option" payload

fun apply_op :: "hasher \<Rightarrow> ledger_op \<Rightarrow> block list \<Rightarrow> block list" where
  "apply_op H (Initialize now) ledger = initialize now ledger"
| "apply_op H (Append now etype entype enid pl) ledger =
     (case append H now etype entype enid pl ledger of
        Inl e \<Rightarrow> ledger
      | Inr (b, ledger') \<Rightarrow> ledger')"

definition replay :: "hasher \<Rightarrow> ledger_op list \<Rightarrow> block list \<Rightarrow> block list" where
  "replay H ops ledger = fold (apply_op H) ops ledger"

text \<open>The invariant of the chain: gapless sequence numbers from 0, each block linked to the one before.\<close>

definition chained :: "block list \<Rightarrow> bool" where
  "chained ledger =
     (map sequence_number ledger = [0..<length ledger] \<and>
      (\<forall>n. 0 < n \<and> n < length ledger \<longrightarrow>
         previous_hash (ledger ! n) = Some (current_hash (ledger ! (n - 1)))))"














text \<open>
  A small hasher for the concrete chains below: the serialisation joins the fields, and
  the digest joins the hashed fields, the sequence number in unary. It stands in for
  SHA-256 only where a statement is evaluated on an example.
\<close>

definition demo_canonical :: "payload \<Rightarrow> string option" where
  "demo_canonical pl = Some (concat (map (\<lambda>(k, v). k @ ''='' @ v @ '';'') pl))"

definition opt_text :: "string option \<Rightarrow> string" where
  "opt_text v = (case v of None \<Rightarrow> ''null'' | Some s \<Rightarrow> s)"

fun demo_digest :: "hashed \<Rightarrow> string" where
  "demo_digest (n, prev, etype, entype, enid, c, now) =
     replicate n (CHR ''1'') @ ''/'' @ opt_text prev @ ''/'' @ etype @ ''/'' @ entype @ ''/'' @
     opt_text enid @ ''/'' @ c @ ''/'' @ now"

definition demo_hasher :: hasher where
  "demo_hasher = \<lparr>canonical = demo_canonical, digest = demo_digest\<rparr>"

definition demo_ops :: "ledger_op list" where
  "demo_ops =
     [Initialize ''t0'',
      Append ''t1'' ''tab_switch'' ''attempt'' (Some ''a1'') [(''source'', ''browser_api'')],
      Append ''t2'' ''attempt_terminated'' ''attempt'' (Some ''a1'') [(''cause'', ''tab_switch'')]]"








section \<open>The ledger tables and the genesis rows of the SQL scripts\<close>

text \<open>
  The sources hold two declarations of the table \<open>blockchain_logs\<close> and, for each, the
  \<open>INSERT\<close> that bootstraps the chain: \<open>MANUAL_SETUP.sql\<close> (the table in step 3, the
  genesis row in step 7), and \<open>schema.sql\<close> (src/unnamed/part_002, l.175-185) with the
  genesis row of \<open>seed_data.sql\<close>. A value is \<open>NULL\<close> (\<open>None\<close>) or given; the columns
  \<open>id\<close>, \<open>created_at\<close> and \<open>timestamp\<close> take their defaults and are left out, and so are
  \<open>exam_id\<close> and \<open>attempt_id\<close>, which are \<open>NULL\<close> in the genesis row. An \<open>INSERT\<close> returns
  the error of the database or the table with the new row.
\<close>

datatype insert_error =
    StringTooLong string nat
  | NotNullViolation string
  | UniqueViolation string

text \<open>
  The assignment of a value to a column of type \<open>VARCHAR(n)\<close>: \<open>NULL\<close> passes, and so
  does a string of at most \<open>n\<close> characters; a longer string is cut to \<open>n\<close> characters
  when all the characters in excess are spaces, and is an error otherwise.
\<close>

definition varchar :: "string \<Rightarrow> nat \<Rightarrow> string option \<Rightarrow> insert_error + string option" where
  "varchar column n v =
     (case v of
        None \<Rightarrow> Inr None
      | Some s \<Rightarrow>
          if length s \<le> n then Inr (Some s)
          else if list_all (\<lambda>c. c = CHR '' '') (drop n s) then Inr (Some (take n s))
          else Inl (StringTooLong column n))"

text \<open>
  \<open>blockchain_logs\<close> of \<open>MANUAL_SETUP.sql\<close>: \<open>previous_hash VARCHAR(64)\<close>,
  \<open>current_hash VARCHAR(64) NOT NULL UNIQUE\<close>, \<open>event_type VARCHAR(100) NOT NULL\<close>,
  \<open>entity_type VARCHAR(100) NOT NULL\<close>, \<open>entity_id UUID\<close>, \<open>payload JSONB\<close>.
\<close>

record audit_row =
  ar_previous_hash :: "string option"
  ar_current_hash :: "string option"
  ar_event_type :: "string option"
  ar_entity_type :: "string option"
  ar_entity_id :: "string option"
  ar_payload :: "payload option"

text \<open>
  \<open>INSERT INTO blockchain_logs (previous_hash, current_hash, event_type, entity_type,
  entity_id, payload) VALUES (...)\<close> on that table: the values are converted to the
  column types, then the \<open>NOT NULL\<close> constraints and the unique index are checked.
\<close>

definition insert_manual_setup :: "audit_row \<Rightarrow> audit_row list \<Rightarrow> insert_error + audit_row list" where
  "insert_manual_setup r tbl =
     (case varchar ''previous_hash'' 64 (ar_previous_hash r) of
        Inl e \<Rightarrow> Inl e
      | Inr prev \<Rightarrow>
     (case varchar ''current_hash'' 64 (ar_current_hash r) of
        Inl e \<Rightarrow> Inl e
      | Inr cur \<Rightarrow>
     (case varchar ''event_type'' 100 (ar_event_type r) of
        Inl e \<Rightarrow> Inl e
      | Inr etype \<Rightarrow>
     (case varchar ''entity_type'' 100 (ar_entity_type r) of
        Inl e \<Rightarrow> Inl e
      | Inr entype \<Rightarrow>
          if cur = None then Inl (NotNullViolation ''current_hash'')
          else if etype = None then Inl (NotNullViolation ''event_type'')
          else if entype = None then Inl (NotNullViolation ''entity_type'')
          else if cur \<in> set (map ar_current_hash tbl) then Inl (UniqueViolation ''current_hash'')
          else Inr (tbl @ [r\<lparr>ar_previous_hash := prev, ar_current_hash := cur,
                               ar_event_type := etype, ar_entity_type := entype\<rparr>])))))"

text \<open>The row that step 7 of \<open>MANUAL_SETUP.sql\<close> inserts ("Insert Genesis Blockchain Block").\<close>

definition genesis_row_manual_setup :: audit_row where
  "genesis_row_manual_setup =
     \<lparr>ar_previous_hash = None,
      ar_current_hash = Some ''genesis_block_hash_0000000000000000000000000000000000000000000000000'',
      ar_event_type = Some ''system_init'', ar_entity_type = Some ''system'',
      ar_entity_id = None,
      ar_payload = Some [(''system'', ''Smart Proctoring System''), (''version'', ''1.0''),
                         (''description'', ''Blockchain audit trail initialized'')]\<rparr>"

text \<open>
  \<open>blockchain_logs\<close> of \<open>schema.sql\<close>: \<open>block_index INTEGER UNIQUE NOT NULL\<close>,
  \<open>data JSONB NOT NULL\<close>, \<open>previous_hash VARCHAR(64) NOT NULL\<close>,
  \<open>current_hash VARCHAR(64) UNIQUE NOT NULL\<close>, \<open>nonce INTEGER NOT NULL\<close>.
\<close>

record chain_row =
  cr_block_index :: "int option"
  cr_data :: "payload option"
  cr_previous_hash :: "string option"
  cr_current_hash :: "string option"
  cr_nonce :: "int option"

text \<open>
  \<open>INSERT INTO blockchain_logs (block_index, timestamp, data, previous_hash,
  current_hash, nonce, exam_id, attempt_id) VALUES (...)\<close> on that table, with numbers in
  the range of \<open>INTEGER\<close>.
\<close>

definition insert_schema :: "chain_row \<Rightarrow> chain_row list \<Rightarrow> insert_error + chain_row list" where
  "insert_schema r tbl =
     (case varchar ''previous_hash'' 64 (cr_previous_hash r) of
        Inl e \<Rightarrow> Inl e
      | Inr prev \<Rightarrow>
     (case varchar ''current_hash'' 64 (cr_current_hash r) of
        Inl e \<Rightarrow> Inl e
      | Inr cur \<Rightarrow>
          if cr_block_index r = None then Inl (NotNullViolation ''block_index'')
          else if cr_data r = None then Inl (NotNullViolation ''data'')
          else if prev = None then Inl (NotNullViolation ''previous_hash'')
          else if cur = None then Inl (NotNullViolation ''current_hash'')
          else if cr_nonce r = None then Inl (NotNullViolation ''nonce'')
          else if cr_block_index r \<in> set (map cr_block_index tbl)
            then Inl (UniqueViolation ''block_index'')
          else if cur \<in> set (map cr_current_hash tbl) then Inl (UniqueViolation ''current_hash'')
          else Inr (tbl @ [r\<lparr>cr_previous_hash := prev, cr_current_hash := cur\<rparr>])))"

text \<open>The row that \<open>seed_data.sql\<close> inserts ("Initialize blockchain with genesis block").\<close>

definition genesis_row_seed_data :: chain_row where
  "genesis_row_seed_data =
     \<lparr>cr_block_index = Some 0,
      cr_data = Some [(''type'', ''genesis_block''),
                      (''message'', ''Smart Proctoring System - Genesis Block''),
                      (''version'', ''1.0''), (''initialization_date'', ''2026-01-18'')],
      cr_previous_hash = Some ''0'',
      cr_current_hash = Some
        ''genesis_block_hash_0000000000000000000000000000000000000000000000000000000000000000'',
      cr_nonce = Some 0\<rparr>"

text \<open>A genesis row of step 7 whose hash has the width of the column, for comparison.\<close>

definition genesis_row_fitting :: audit_row where
  "genesis_row_fitting =
     genesis_row_manual_setup
       \<lparr>ar_current_hash := Some ''genesis_block_hash_000000000000000000000000000000000000000000000''\<rparr>"
section \<open>Proofs: buffers and baselines\<close>

lemma keystrokeBuffer_captureKeystroke:
  "keystrokeBuffer (snd (captureKeystroke N now e s)) =
     (if length (keystrokeBuffer s) \<ge> 100 then tl (keystrokeBuffer s @ [\<lparr>ks_key = ev_key e,
        ks_timestamp = now, ks_duration = 0,
        ks_pressure = (case ev_pressure e of None \<Rightarrow> 0 | Some p \<Rightarrow> p)\<rparr>])
      else keystrokeBuffer s @ [\<lparr>ks_key = ev_key e, ks_timestamp = now, ks_duration = 0,
        ks_pressure = (case ev_pressure e of None \<Rightarrow> 0 | Some p \<Rightarrow> p)\<rparr>])"
  by (auto simp: captureKeystroke_def Let_def)

lemma mouseBuffer_captureMouseMovement:
  "mouseBuffer (snd (captureMouseMovement N now e s)) =
     (if length (mouseBuffer s) \<ge> 200 then tl (mouseBuffer s @ [\<lparr>mv_x = ev_clientX e,
        mv_y = ev_clientY e, mv_timestamp = now, mv_type = ev_type e\<rparr>])
      else mouseBuffer s @ [\<lparr>mv_x = ev_clientX e, mv_y = ev_clientY e, mv_timestamp = now,
        mv_type = ev_type e\<rparr>])"
  by (auto simp: captureMouseMovement_def Let_def)

lemma captureKeystroke_frame:
  "mouseBuffer (snd (captureKeystroke N now e s)) = mouseBuffer s"
  "baselineMouse (snd (captureKeystroke N now e s)) = baselineMouse s"
  by (auto simp: captureKeystroke_def Let_def)

lemma captureMouseMovement_frame:
  "keystrokeBuffer (snd (captureMouseMovement N now e s)) = keystrokeBuffer s"
  "baselineTyping (snd (captureMouseMovement N now e s)) = baselineTyping s"
  by (auto simp: captureMouseMovement_def Let_def)

lemma baselineTyping_captureKeystroke:
  "baselineTyping (snd (captureKeystroke N now e s)) =
     (if baselineTyping s = None \<and> length (keystrokeBuffer (snd (captureKeystroke N now e s))) \<ge> 50
      then Some (typing_stats N (keystrokeBuffer (snd (captureKeystroke N now e s))))
      else baselineTyping s)"
  by (auto simp: captureKeystroke_def Let_def calculateTypingProfile_def)

lemma baselineMouse_captureMouseMovement:
  "baselineMouse (snd (captureMouseMovement N now e s)) =
     (if baselineMouse s = None \<and> length (mouseBuffer (snd (captureMouseMovement N now e s))) \<ge> 100
      then Some (mouse_stats N (mouseBuffer (snd (captureMouseMovement N now e s))))
      else baselineMouse s)"
  by (auto simp: captureMouseMovement_def Let_def calculateMouseProfile_def)

lemma bounded_perform: "bounded s \<Longrightarrow> bounded (perform N c s)"
proof (cases c)
  case (CaptureKeystroke now e)
  assume "bounded s"
  then show ?thesis
    unfolding CaptureKeystroke
    by (simp add: bounded_def keystrokeBuffer_captureKeystroke captureKeystroke_frame)
next
  case (CaptureMouseMovement now e)
  assume "bounded s"
  then show ?thesis
    unfolding CaptureMouseMovement
    by (simp add: bounded_def mouseBuffer_captureMouseMovement captureMouseMovement_frame)
next
  case (DetectStressLevel score)
  assume "bounded s"
  then show ?thesis
    unfolding DetectStressLevel by (simp add: bounded_def detectStressLevel_def)
next
  case Reset
  then show ?thesis by (simp add: bounded_def reset_def)
qed

lemma bounded_run: "bounded s \<Longrightarrow> bounded (run N cs s)"
  by (induction cs arbitrary: s) (simp_all add: bounded_perform)

lemma bounded_new_service: "bounded new_service"
  by (simp add: bounded_def new_service_def)


lemma perform_baselineTyping:
  "c \<noteq> Reset \<Longrightarrow> baselineTyping s = Some b \<Longrightarrow> baselineTyping (perform N c s) = Some b"
  by (cases c)
    (simp_all add: baselineTyping_captureKeystroke captureMouseMovement_frame
      detectStressLevel_def)

lemma perform_baselineMouse:
  "c \<noteq> Reset \<Longrightarrow> baselineMouse s = Some b \<Longrightarrow> baselineMouse (perform N c s) = Some b"
  by (cases c)
    (simp_all add: baselineMouse_captureMouseMovement captureKeystroke_frame
      detectStressLevel_def)

lemma perform_keystrokeBuffer:
  "c \<noteq> Reset \<Longrightarrow> keystrokeBuffer s \<noteq> [] \<Longrightarrow> keystrokeBuffer (perform N c s) \<noteq> []"
proof (cases c)
  case (CaptureKeystroke now e)
  assume "keystrokeBuffer s \<noteq> []"
  then have "tl (keystrokeBuffer s @ [k]) \<noteq> []" for k
    by (cases "keystrokeBuffer s") simp_all
  then show ?thesis
    unfolding CaptureKeystroke by (simp add: keystrokeBuffer_captureKeystroke)
qed (simp_all add: captureMouseMovement_frame detectStressLevel_def)

lemma perform_mouseBuffer:
  "c \<noteq> Reset \<Longrightarrow> mouseBuffer s \<noteq> [] \<Longrightarrow> mouseBuffer (perform N c s) \<noteq> []"
proof (cases c)
  case (CaptureMouseMovement now e)
  assume "mouseBuffer s \<noteq> []"
  then have "tl (mouseBuffer s @ [m]) \<noteq> []" for m
    by (cases "mouseBuffer s") simp_all
  then show ?thesis
    unfolding CaptureMouseMovement by (simp add: mouseBuffer_captureMouseMovement)
qed (simp_all add: captureKeystroke_frame detectStressLevel_def)

lemma run_baselineTyping:
  "Reset \<notin> set cs \<Longrightarrow> baselineTyping s = Some b \<Longrightarrow> baselineTyping (run N cs s) = Some b"
  by (induction cs arbitrary: s) (auto simp: perform_baselineTyping [OF not_sym])

lemma run_baselineMouse:
  "Reset \<notin> set cs \<Longrightarrow> baselineMouse s = Some b \<Longrightarrow> baselineMouse (run N cs s) = Some b"
  by (induction cs arbitrary: s) (auto simp: perform_baselineMouse [OF not_sym])

lemma run_keystrokeBuffer:
  "Reset \<notin> set cs \<Longrightarrow> keystrokeBuffer s \<noteq> [] \<Longrightarrow> keystrokeBuffer (run N cs s) \<noteq> []"
  by (induction cs arbitrary: s) (auto simp: perform_keystrokeBuffer [OF not_sym])

lemma run_mouseBuffer:
  "Reset \<notin> set cs \<Longrightarrow> mouseBuffer s \<noteq> [] \<Longrightarrow> mouseBuffer (run N cs s) \<noteq> []"
  by (induction cs arbitrary: s) (auto simp: perform_mouseBuffer [OF not_sym])

text \<open>
  C10. After every run of calls on a fresh service, and so after every call of
  \<open>captureKeystroke\<close> and of \<open>captureMouseMovement\<close>, the key stroke buffer holds at most
  100 entries and the mouse buffer at most 200. A baseline that is set keeps its value
  through every run of calls without \<open>reset()\<close>: the capture calls never compute it
  again. Through such a run a buffer that is not empty stays so and a baseline stays
  set; \<open>reset()\<close> empties both buffers and both baselines.
\<close>

theorem capture_buffers_bounded_baselines_kept:
  "bounded (run N cs new_service) \<and>
   (bounded s \<longrightarrow> bounded (perform N c s)) \<and>
   (Reset \<notin> set cs \<and> baselineTyping s = Some b \<longrightarrow> baselineTyping (run N cs s) = Some b) \<and>
   (Reset \<notin> set cs \<and> baselineMouse s = Some b' \<longrightarrow>
      baselineMouse (run N cs s) = Some b') \<and>
   (Reset \<notin> set cs \<and> keystrokeBuffer s \<noteq> [] \<longrightarrow> keystrokeBuffer (run N cs s) \<noteq> []) \<and>
   (Reset \<notin> set cs \<and> mouseBuffer s \<noteq> [] \<longrightarrow> mouseBuffer (run N cs s) \<noteq> []) \<and>
   keystrokeBuffer (reset s) = [] \<and> mouseBuffer (reset s) = [] \<and>
   baselineTyping (reset s) = None \<and> baselineMouse (reset s) = None"
proof -
  have "bounded (run N cs new_service)"
    by (rule bounded_run) (rule bounded_new_service)
  moreover have "keystrokeBuffer (reset s) = [] \<and> mouseBuffer (reset s) = [] \<and>
      baselineTyping (reset s) = None \<and> baselineMouse (reset s) = None"
    by (simp add: reset_def)
  ultimately show ?thesis
    using bounded_perform [of s N c] run_baselineTyping [of cs s b N]
      run_baselineMouse [of cs s b' N] run_keystrokeBuffer [of cs s N]
      run_mouseBuffer [of cs s N]
    by blast
qed

theorem capture_buffers_bounded_baselines_kept_witness:
  "bounded demo_state \<and> Reset \<notin> set demo_calls \<and>
   length (keystrokeBuffer demo_state) = 50 \<and> length (mouseBuffer demo_state) = 100 \<and>
   baselineTyping demo_state = Some 50 \<and> baselineMouse demo_state = Some 100 \<and>
   bounded (run demo_numerics demo_calls new_service) \<and>
   bounded (perform demo_numerics demo_key demo_state) \<and>
   baselineTyping (run demo_numerics demo_calls demo_state) = Some 50 \<and>
   baselineMouse (run demo_numerics demo_calls demo_state) = Some 100 \<and>
   keystrokeBuffer (run demo_numerics demo_calls demo_state) \<noteq> [] \<and>
   mouseBuffer (run demo_numerics demo_calls demo_state) \<noteq> [] \<and>
   keystrokeBuffer (reset demo_state) = [] \<and> mouseBuffer (reset demo_state) = [] \<and>
   baselineTyping (reset demo_state) = None \<and> baselineMouse (reset demo_state) = None"
proof -
  have calls: "Reset \<notin> set demo_calls"
    by (simp add: demo_calls_def demo_key_def demo_move_def)
  have typing: "baselineTyping demo_state = Some 50"
    by code_simp
  have mouse: "baselineMouse demo_state = Some 100"
    by code_simp
  have keys: "length (keystrokeBuffer demo_state) = 50"
    by code_simp
  have moves: "length (mouseBuffer demo_state) = 100"
    by code_simp
  have state: "bounded demo_state"
    by (simp add: bounded_def keys moves)
  have "keystrokeBuffer demo_state \<noteq> []" "mouseBuffer demo_state \<noteq> []"
    using keys moves by auto
  then show ?thesis
    using capture_buffers_bounded_baselines_kept
      [of demo_numerics demo_calls demo_state demo_key 50 100]
      calls typing mouse keys moves state
    by simp
qed

section \<open>Proofs: the event throttle\<close>

lemma trigger_suppressed:
  "sg_now g - lastTime r (sg_type g) < 2000 \<Longrightarrow> trigger g r = (None, r)"
  by (simp add: trigger_def triggerEvent_def)

lemma trigger_emitted:
  "2000 \<le> sg_now g - lastTime r (sg_type g) \<Longrightarrow>
     (\<exists>e. fst (trigger g r) = Some e \<and> event_type e = sg_type g) \<and>
     snd (trigger g r) = r(sg_type g \<mapsto> sg_now g)"
  by (simp add: trigger_def triggerEvent_def)

lemma trigger_other_type:
  "sg_type c \<noteq> sg_type a \<Longrightarrow> fst (trigger c (snd (trigger a r))) = fst (trigger c r)"
  by (simp add: trigger_def triggerEvent_def lastTime_def)

lemma feed_two_at_most_one:
  assumes "sg_type b = sg_type a" "sg_now b - sg_now a < 2000"
  shows "length (fst (feed [a, b] r)) \<le> 1"
proof (cases "sg_now a - lastTime r (sg_type a) < 2000")
  case True
  then have "trigger a r = (None, r)" by (rule trigger_suppressed)
  then show ?thesis
    by (cases "trigger b r") (auto split: option.splits)
next
  case False
  then obtain e where e: "trigger a r = (Some e, r(sg_type a \<mapsto> sg_now a))"
    using trigger_emitted [of a r] by (cases "trigger a r") auto
  have "lastTime (r(sg_type a \<mapsto> sg_now a)) (sg_type b) = sg_now a"
    using assms(1) by (simp add: lastTime_def)
  then have "trigger b (r(sg_type a \<mapsto> sg_now a)) = (None, r(sg_type a \<mapsto> sg_now a))"
    using assms(2) by (simp add: trigger_suppressed)
  with e show ?thesis by simp
qed

lemma feed_two_exactly_one:
  assumes "sg_type b = sg_type a" "sg_now b - sg_now a < 2000"
    and "2000 \<le> sg_now a - lastTime r (sg_type a)"
  shows "length (fst (feed [a, b] r)) = 1 \<and>
         trigger b (snd (trigger a r)) = (None, snd (trigger a r)) \<and>
         feed [a, b] r = feed [a] r"
proof -
  obtain e where e: "trigger a r = (Some e, r(sg_type a \<mapsto> sg_now a))"
    using trigger_emitted [OF assms(3)] by (cases "trigger a r") auto
  have "lastTime (r(sg_type a \<mapsto> sg_now a)) (sg_type b) = sg_now a"
    using assms(1) by (simp add: lastTime_def)
  then have "trigger b (r(sg_type a \<mapsto> sg_now a)) = (None, r(sg_type a \<mapsto> sg_now a))"
    using assms(2) by (simp add: trigger_suppressed)
  with e show ?thesis by simp
qed

text \<open>
  C8. Two signals of the same event type less than 2000 ms apart, given to
  \<open>triggerEvent\<close> of one monitor (one attempt), never both come out. When the first one
  passes the throttle (for a fresh monitor: whenever the clock reads at least 2000)
  exactly one event comes out, the first; the second call returns without an event and
  leaves the reference as it was, so the run with the duplicate equals the run without
  it: the duplicate is dropped, not queued. A signal of another event type gets the
  answer it would have got had the first signal never arrived. The window is the
  literal 2000 of the source.
\<close>

theorem throttle_drops_duplicate:
  "(sg_type b = sg_type a \<and> sg_now b - sg_now a < 2000 \<longrightarrow> length (fst (feed [a, b] r)) \<le> 1) \<and>
   (sg_type b = sg_type a \<and> sg_now b - sg_now a < 2000 \<and>
    2000 \<le> sg_now a - lastTime r (sg_type a) \<longrightarrow>
      length (fst (feed [a, b] r)) = 1 \<and>
      trigger b (snd (trigger a r)) = (None, snd (trigger a r)) \<and>
      feed [a, b] r = feed [a] r) \<and>
   (sg_type c \<noteq> sg_type a \<longrightarrow> fst (trigger c (snd (trigger a r))) = fst (trigger c r)) \<and>
   lastTime Map.empty (sg_type a) = 0"
proof -
  have "lastTime Map.empty (sg_type a) = 0"
    by (simp add: lastTime_def)
  then show ?thesis
    using feed_two_at_most_one [of b a r] feed_two_exactly_one [of b a r]
      trigger_other_type [of c a r]
    by blast
qed

theorem throttle_drops_duplicate_witness:
  "sg_type (demo_no_face 1700000000500) = sg_type (demo_no_face 1700000000000) \<and>
   sg_now (demo_no_face 1700000000500) - sg_now (demo_no_face 1700000000000) < 2000 \<and>
   2000 \<le> sg_now (demo_no_face 1700000000000)
      - lastTime Map.empty (sg_type (demo_no_face 1700000000000)) \<and>
   sg_type (demo_multiple_faces 1700000000500) \<noteq> sg_type (demo_no_face 1700000000000) \<and>
   length (fst (feed [demo_no_face 1700000000000, demo_no_face 1700000000500] Map.empty)) = 1 \<and>
   feed [demo_no_face 1700000000000, demo_no_face 1700000000500] Map.empty =
     feed [demo_no_face 1700000000000] Map.empty \<and>
   fst (trigger (demo_multiple_faces 1700000000500)
          (snd (trigger (demo_no_face 1700000000000) Map.empty))) =
     fst (trigger (demo_multiple_faces 1700000000500) Map.empty) \<and>
   map event_type
     (fst (feed [demo_no_face 1700000000000, demo_no_face 1700000000500,
                 demo_multiple_faces 1700000000500] Map.empty)) = [''no_face'', ''multiple_faces'']"
proof -
  have same: "sg_type (demo_no_face 1700000000500) = sg_type (demo_no_face 1700000000000)"
    by (simp add: demo_no_face_def)
  have near: "sg_now (demo_no_face 1700000000500) - sg_now (demo_no_face 1700000000000) < 2000"
    by (simp add: demo_no_face_def)
  have passes: "2000 \<le> sg_now (demo_no_face 1700000000000)
      - lastTime Map.empty (sg_type (demo_no_face 1700000000000))"
    by (simp add: demo_no_face_def lastTime_def)
  have other: "sg_type (demo_multiple_faces 1700000000500) \<noteq> sg_type (demo_no_face 1700000000000)"
    by (simp add: demo_no_face_def demo_multiple_faces_def)
  have run: "map event_type
     (fst (feed [demo_no_face 1700000000000, demo_no_face 1700000000500,
                 demo_multiple_faces 1700000000500] Map.empty)) = [''no_face'', ''multiple_faces'']"
    by (simp add: demo_no_face_def demo_multiple_faces_def trigger_def triggerEvent_def
        lastTime_def)
  show ?thesis
    using throttle_drops_duplicate
      [of "demo_no_face 1700000000500" "demo_no_face 1700000000000" Map.empty
          "demo_multiple_faces 1700000000500"]
      same near passes other run
    by blast
qed

section \<open>Proofs: the handlers of the exam session page\<close>

lemma autoTerminate_active:
  "\<not> no_attempt s \<Longrightarrow> proctoringActive s \<Longrightarrow>
     fst (autoTerminate w reason ty s) =
       TerminateAttempt (the_attempt s) reason ty (clock w) (terminate_reply w) #
       (case terminate_reply w of
          Completed \<Rightarrow> [Alert (''Exam Terminated: '' @ reason), Navigate ''/exams'']
        | Failed \<Rightarrow> [ConsoleError ''Failed to terminate exam:'',
                      Alert ''Exam terminated due to violation.'', Navigate ''/exams'']) \<and>
     snd (autoTerminate w reason ty s) = s\<lparr>proctoringActive := False\<rparr>"
  by (simp add: autoTerminate_def split: outcome.splits)

lemma handle_violation:
  "\<not> no_attempt s \<Longrightarrow> event_type e \<in> set auto_terminate_types \<Longrightarrow>
     \<exists>reason. handleProctoringEvent w e s = autoTerminate w reason (event_type e) s"
  by (auto simp: handleProctoringEvent_def auto_terminate_types_def)

lemma handle_other:
  "\<not> no_attempt s \<Longrightarrow> event_type e \<notin> set auto_terminate_types \<Longrightarrow>
     handleProctoringEvent w e s =
       (case log_reply w of
          Completed \<Rightarrow>
            ([LogEvent (the_attempt s) (event_type e) (description e) (metadata e) Completed],
             s\<lparr>events := take 10 ((e, clock w) # events s)\<rparr>)
        | Failed \<Rightarrow>
            ([LogEvent (the_attempt s) (event_type e) (description e) (metadata e) Failed,
              ConsoleError ''Failed to log event:''], s))"
  by (simp add: handleProctoringEvent_def auto_terminate_types_def)

lemma no_attempt_events [simp]: "no_attempt (s\<lparr>events := evs\<rparr>) = no_attempt s"
  by (simp add: no_attempt_def)

lemma the_attempt_events [simp]: "the_attempt (s\<lparr>events := evs\<rparr>) = the_attempt s"
  by (simp add: the_attempt_def)

lemma no_attempt_active [simp]: "no_attempt (s\<lparr>proctoringActive := a\<rparr>) = no_attempt s"
  by (simp add: no_attempt_def)

text \<open>
  C4. In a session that is running (an attempt is set and proctoring is active), one
  event of type \<open>multiple_faces\<close>, \<open>tab_switch\<close> or \<open>window_blur\<close> makes the handler issue the
  terminate request for that event type as its first effect, log nothing, and switch
  proctoring off; what it does is the same whatever the list of earlier events holds, so
  no strike is counted. An event of any other type makes it issue exactly the log
  request for the event and no terminate request, tell the student nothing about a
  termination, and leave proctoring on.
\<close>

theorem violation_terminates_at_once:
  "\<not> no_attempt s \<and> proctoringActive s \<longrightarrow>
     (event_type e \<in> set auto_terminate_types \<longrightarrow>
        (\<exists>reason rest. fst (handleProctoringEvent w e s) =
           TerminateAttempt (the_attempt s) reason (event_type e) (clock w) (terminate_reply w)
             # rest) \<and>
        \<not> list_ex is_log_request (fst (handleProctoringEvent w e s)) \<and>
        \<not> proctoringActive (snd (handleProctoringEvent w e s)) \<and>
        fst (handleProctoringEvent w e (s\<lparr>events := evs\<rparr>)) = fst (handleProctoringEvent w e s)) \<and>
     (event_type e \<notin> set auto_terminate_types \<longrightarrow>
        (\<exists>rest. fst (handleProctoringEvent w e s) =
           LogEvent (the_attempt s) (event_type e) (description e) (metadata e) (log_reply w)
             # rest \<and> \<not> list_ex is_log_request rest) \<and>
        \<not> list_ex is_terminate_request (fst (handleProctoringEvent w e s)) \<and>
        \<not> list_ex reports_termination (fst (handleProctoringEvent w e s)) \<and>
        proctoringActive (snd (handleProctoringEvent w e s)))"
proof (intro impI conjI; (elim conjE)?)
  assume s: "\<not> no_attempt s" "proctoringActive s"
    and e: "event_type e \<in> set auto_terminate_types"
  from handle_violation [OF s(1) e]
  obtain reason where r: "handleProctoringEvent w e s = autoTerminate w reason (event_type e) s"
    by blast
  note a = autoTerminate_active [OF s, of w reason "event_type e"]
  show "\<exists>reason rest. fst (handleProctoringEvent w e s) =
      TerminateAttempt (the_attempt s) reason (event_type e) (clock w) (terminate_reply w) # rest"
    using r a by auto
  show "\<not> list_ex is_log_request (fst (handleProctoringEvent w e s))"
    using r a by (auto split: outcome.splits)
  show "\<not> proctoringActive (snd (handleProctoringEvent w e s))"
    using r a by simp
  show "fst (handleProctoringEvent w e (s\<lparr>events := evs\<rparr>)) = fst (handleProctoringEvent w e s)"
    using s e
    by (auto simp: handleProctoringEvent_def auto_terminate_types_def autoTerminate_def
        split: outcome.splits)
next
  assume s: "\<not> no_attempt s" "proctoringActive s"
    and e: "event_type e \<notin> set auto_terminate_types"
  note h = handle_other [OF s(1) e, of w]
  show "\<exists>rest. fst (handleProctoringEvent w e s) =
      LogEvent (the_attempt s) (event_type e) (description e) (metadata e) (log_reply w) # rest \<and>
      \<not> list_ex is_log_request rest"
    using h by (auto split: outcome.splits)
  show "\<not> list_ex is_terminate_request (fst (handleProctoringEvent w e s))"
    using h by (auto split: outcome.splits)
  show "\<not> list_ex reports_termination (fst (handleProctoringEvent w e s))"
    using h by (auto split: outcome.splits)
  show "proctoringActive (snd (handleProctoringEvent w e s))"
    using h s(2) by (auto split: outcome.splits)
qed

theorem violation_terminates_at_once_witness:
  "\<not> no_attempt demo_page \<and> proctoringActive demo_page \<and>
   event_type demo_tab_switch \<in> set auto_terminate_types \<and>
   event_type demo_copy \<notin> set auto_terminate_types \<and>
   fst (handleProctoringEvent (demo_world Completed) demo_tab_switch demo_page) =
     [TerminateAttempt ''a1'' ''Tab/Window switch detected'' ''tab_switch''
        ''2026-01-18T10:00:00.000Z'' Completed,
      Alert ''Exam Terminated: Tab/Window switch detected'', Navigate ''/exams''] \<and>
   \<not> list_ex is_log_request
       (fst (handleProctoringEvent (demo_world Completed) demo_tab_switch demo_page)) \<and>
   \<not> proctoringActive
       (snd (handleProctoringEvent (demo_world Completed) demo_tab_switch demo_page)) \<and>
   fst (handleProctoringEvent (demo_world Completed) demo_copy demo_page) =
     [LogEvent ''a1'' ''copy_attempt'' ''Student attempted to copy content''
        [''source'' \<mapsto> JStr ''browser_api''] Completed] \<and>
   \<not> list_ex is_terminate_request
       (fst (handleProctoringEvent (demo_world Completed) demo_copy demo_page)) \<and>
   proctoringActive (snd (handleProctoringEvent (demo_world Completed) demo_copy demo_page))"
proof -
  have page: "\<not> no_attempt demo_page" "proctoringActive demo_page"
    by (simp_all add: demo_page_def no_attempt_def)
  have tab: "event_type demo_tab_switch \<in> set auto_terminate_types"
    by (simp add: demo_tab_switch_def auto_terminate_types_def)
  have copy: "event_type demo_copy \<notin> set auto_terminate_types"
    by (simp add: demo_copy_def auto_terminate_types_def)
  have run_tab:
    "fst (handleProctoringEvent (demo_world Completed) demo_tab_switch demo_page) =
       [TerminateAttempt ''a1'' ''Tab/Window switch detected'' ''tab_switch''
          ''2026-01-18T10:00:00.000Z'' Completed,
        Alert ''Exam Terminated: Tab/Window switch detected'', Navigate ''/exams'']"
    by (simp add: handleProctoringEvent_def autoTerminate_def demo_page_def demo_world_def
        demo_tab_switch_def no_attempt_def the_attempt_def)
  have run_copy:
    "fst (handleProctoringEvent (demo_world Completed) demo_copy demo_page) =
       [LogEvent ''a1'' ''copy_attempt'' ''Student attempted to copy content''
          [''source'' \<mapsto> JStr ''browser_api''] Completed]"
    by (simp add: handleProctoringEvent_def demo_page_def demo_world_def demo_copy_def
        no_attempt_def the_attempt_def)
  show ?thesis
    using violation_terminates_at_once [of demo_page demo_tab_switch "demo_world Completed" "[]"]
      violation_terminates_at_once [of demo_page demo_copy "demo_world Completed" "[]"]
      page tab copy run_tab run_copy
    by blast
qed

text \<open>
  C5. The code departs from the claim. In a running session the student leaves the
  tab: the browser delivers \<open>visibilitychange\<close> and \<open>blur\<close>, and the two listeners hand a
  \<open>tab_switch\<close> and a \<open>window_blur\<close> to the handler they hold. Both runs read
  \<open>proctoringActive = true\<close>, the guard of \<open>autoTerminate\<close> ("Prevent multiple
  termination calls") holds neither of them back, and two terminate requests are issued
  for the one attempt, although the first run has switched proctoring off. A run that
  does read the state written by the first one performs nothing: the violating event
  is dropped, it is not sent to the log.
\<close>

theorem stale_listeners_terminate_twice:
  "filter is_terminate_request
     (listener_effects demo_page
        [(demo_world Completed, demo_tab_switch),
         ((demo_world Completed)\<lparr>clock := ''2026-01-18T10:00:00.004Z''\<rparr>, demo_window_blur)]) =
     [TerminateAttempt ''a1'' ''Tab/Window switch detected'' ''tab_switch''
        ''2026-01-18T10:00:00.000Z'' Completed,
      TerminateAttempt ''a1'' ''Window lost focus'' ''window_blur''
        ''2026-01-18T10:00:00.004Z'' Completed] \<and>
   snd (handleProctoringEvent (demo_world Completed) demo_tab_switch demo_page) =
     demo_page\<lparr>proctoringActive := False\<rparr> \<and>
   handleProctoringEvent (demo_world Completed) demo_window_blur
       (demo_page\<lparr>proctoringActive := False\<rparr>) =
     ([], demo_page\<lparr>proctoringActive := False\<rparr>)"
  by (simp add: handleProctoringEvent_def autoTerminate_def demo_page_def demo_world_def
      demo_tab_switch_def demo_window_blur_def no_attempt_def the_attempt_def)

text \<open>
  C3, as amended. When \<open>autoTerminate\<close> fires (an attempt is set and proctoring is
  active), its first effect is the terminate request, which carries the reason, the
  triggering event type and the time stamp; the alert and the navigation that tell the
  student come after it, and the run issues no second request. When the request
  completes, every report of the termination comes after a completed request; this
  holds as well for the handler run on a violating event. No run of \<open>autoTerminate\<close>
  reports a termination without having issued the request. (When the request fails the
  student is told all the same: the counterexample below.)
\<close>

theorem terminate_request_precedes_report:
  "(\<not> no_attempt s \<and> proctoringActive s \<longrightarrow>
      (\<exists>rest. fst (autoTerminate w reason ty s) =
         TerminateAttempt (the_attempt s) reason ty (clock w) (terminate_reply w) # rest \<and>
         list_ex reports_termination rest \<and> \<not> list_ex is_terminate_request rest) \<and>
      (terminate_reply w = Completed \<longrightarrow>
         recorded_before_report (fst (autoTerminate w reason ty s)))) \<and>
   (\<not> no_attempt s \<and> proctoringActive s \<and> event_type e \<in> set auto_terminate_types \<and>
    terminate_reply w = Completed \<longrightarrow>
      recorded_before_report (fst (handleProctoringEvent w e s))) \<and>
   (list_ex reports_termination (fst (autoTerminate w reason ty s)) \<longrightarrow>
      list_ex is_terminate_request (fst (autoTerminate w reason ty s)))"
proof (intro conjI impI; (elim conjE)?)
  assume s: "\<not> no_attempt s" "proctoringActive s"
  note a = autoTerminate_active [OF s, of w reason ty]
  show "\<exists>rest. fst (autoTerminate w reason ty s) =
      TerminateAttempt (the_attempt s) reason ty (clock w) (terminate_reply w) # rest \<and>
      list_ex reports_termination rest \<and> \<not> list_ex is_terminate_request rest"
    using a by (cases "terminate_reply w") simp_all
  {
    assume "terminate_reply w = Completed"
    then show "recorded_before_report (fst (autoTerminate w reason ty s))"
      using a by simp
  }
next
  assume s: "\<not> no_attempt s" "proctoringActive s"
    and e: "event_type e \<in> set auto_terminate_types"
    and w: "terminate_reply w = Completed"
  from handle_violation [OF s(1) e, of w]
  obtain r where "handleProctoringEvent w e s = autoTerminate w r (event_type e) s"
    by blast
  then show "recorded_before_report (fst (handleProctoringEvent w e s))"
    using autoTerminate_active [OF s, of w r "event_type e"] w by simp
next
  assume "list_ex reports_termination (fst (autoTerminate w reason ty s))"
  then show "list_ex is_terminate_request (fst (autoTerminate w reason ty s))"
    by (auto simp: autoTerminate_def split: if_splits outcome.splits)
qed

theorem terminate_request_precedes_report_witness:
  "\<not> no_attempt demo_page \<and> proctoringActive demo_page \<and>
   event_type demo_tab_switch \<in> set auto_terminate_types \<and>
   terminate_reply (demo_world Completed) = Completed \<and>
   fst (autoTerminate (demo_world Completed) ''Window lost focus'' ''window_blur'' demo_page) =
     [TerminateAttempt ''a1'' ''Window lost focus'' ''window_blur'' ''2026-01-18T10:00:00.000Z''
        Completed,
      Alert ''Exam Terminated: Window lost focus'', Navigate ''/exams''] \<and>
   recorded_before_report
     (fst (autoTerminate (demo_world Completed) ''Window lost focus'' ''window_blur'' demo_page)) \<and>
   recorded_before_report
     (fst (handleProctoringEvent (demo_world Completed) demo_tab_switch demo_page)) \<and>
   list_ex is_terminate_request
     (fst (autoTerminate (demo_world Completed) ''Window lost focus'' ''window_blur'' demo_page))"
proof -
  have page: "\<not> no_attempt demo_page" "proctoringActive demo_page"
    by (simp_all add: demo_page_def no_attempt_def)
  have tab: "event_type demo_tab_switch \<in> set auto_terminate_types"
    by (simp add: demo_tab_switch_def auto_terminate_types_def)
  have reply: "terminate_reply (demo_world Completed) = Completed"
    by (simp add: demo_world_def)
  have run:
    "fst (autoTerminate (demo_world Completed) ''Window lost focus'' ''window_blur'' demo_page) =
       [TerminateAttempt ''a1'' ''Window lost focus'' ''window_blur''
          ''2026-01-18T10:00:00.000Z'' Completed,
        Alert ''Exam Terminated: Window lost focus'', Navigate ''/exams'']"
    by (simp add: autoTerminate_def demo_page_def demo_world_def no_attempt_def the_attempt_def)
  have "list_ex reports_termination
     (fst (autoTerminate (demo_world Completed) ''Window lost focus'' ''window_blur'' demo_page))"
    by (simp add: run)
  then show ?thesis
    using terminate_request_precedes_report
        [of demo_page "demo_world Completed" "''Window lost focus''" "''window_blur''"
            demo_tab_switch]
      page tab reply run
    by blast
qed

text \<open>
  The claim C3 as it is written fails on \<open>autoTerminate\<close>: when the terminate request
  throws, the run still alerts the student that the exam is terminated and navigates
  away, and no request of the run has completed.
\<close>

theorem report_without_record_counterexample:
  "fst (autoTerminate (demo_world Failed) ''Tab/Window switch detected'' ''tab_switch'' demo_page) =
     [TerminateAttempt ''a1'' ''Tab/Window switch detected'' ''tab_switch''
        ''2026-01-18T10:00:00.000Z'' Failed,
      ConsoleError ''Failed to terminate exam:'',
      Alert ''Exam terminated due to violation.'', Navigate ''/exams''] \<and>
   list_ex reports_termination
     (fst (autoTerminate (demo_world Failed) ''Tab/Window switch detected'' ''tab_switch''
            demo_page)) \<and>
   \<not> list_ex is_recorded_termination
     (fst (autoTerminate (demo_world Failed) ''Tab/Window switch detected'' ''tab_switch''
            demo_page)) \<and>
   \<not> recorded_before_report
     (fst (autoTerminate (demo_world Failed) ''Tab/Window switch detected'' ''tab_switch''
            demo_page))"
  by (simp add: autoTerminate_def demo_page_def demo_world_def no_attempt_def the_attempt_def)

section \<open>Proofs: the persisted attempt status\<close>







section \<open>Proofs: the severity table and the tags the page accepts\<close>




section \<open>Proofs: the ledger\<close>

lemma latest_last:
  "sorted_wrt (<) (map sequence_number ledger) \<Longrightarrow> ledger \<noteq> [] \<Longrightarrow>
     latest ledger = Some (last ledger)"
proof (induction ledger)
  case Nil
  then show ?case by simp
next
  case (Cons b bs)
  show ?case
  proof (cases bs)
    case Nil
    then show ?thesis by simp
  next
    case (Cons c cs)
    with Cons.prems Cons.IH have l: "latest bs = Some (last bs)"
      by simp
    have "last bs \<in> set bs"
      using Cons by simp
    with Cons.prems have "sequence_number b < sequence_number (last bs)"
      by auto
    with l Cons show ?thesis by simp
  qed
qed

lemma chained_latest:
  assumes "chained ledger" "ledger \<noteq> []"
  shows "latest ledger = Some (last ledger)"
    and "sequence_number (last ledger) + 1 = length ledger"
proof -
  from assms(1) have m: "map sequence_number ledger = [0..<length ledger]"
    by (simp add: chained_def)
  then have "sorted_wrt (<) (map sequence_number ledger)"
    by simp
  from this assms(2) show "latest ledger = Some (last ledger)"
    by (rule latest_last)
  from assms(2) have "sequence_number (last ledger) = (map sequence_number ledger) ! (length ledger - 1)"
    by (simp add: last_conv_nth)
  also have "\<dots> = length ledger - 1"
    using assms(2) by (simp add: m)
  finally show "sequence_number (last ledger) + 1 = length ledger"
    using assms(2) by simp
qed

lemma chained_snoc:
  assumes "chained ledger"
    and "sequence_number b = length ledger"
    and "ledger \<noteq> [] \<longrightarrow> previous_hash b = Some (current_hash (last ledger))"
  shows "chained (ledger @ [b])"
  unfolding chained_def
proof (intro conjI allI impI)
  show "map sequence_number (ledger @ [b]) = [0..<length (ledger @ [b])]"
    using assms(1,2) by (simp add: chained_def)
next
  fix n
  assume n: "0 < n \<and> n < length (ledger @ [b])"
  show "previous_hash ((ledger @ [b]) ! n) = Some (current_hash ((ledger @ [b]) ! (n - 1)))"
  proof (cases "n < length ledger")
    case True
    with n assms(1) show ?thesis
      by (simp add: chained_def nth_append less_imp_diff_less)
  next
    case False
    with n have "n = length ledger" "ledger \<noteq> []"
      by auto
    with assms(3) show ?thesis
      by (simp add: nth_append last_conv_nth)
  qed
qed

lemma chained_append:
  assumes "chained ledger" "append H now etype entype enid pl ledger = Inr (b, ledger')"
  shows "chained ledger'"
proof -
  from assms(2) obtain c where c: "canonical H pl = Some c"
    by (auto simp: append_def split: option.splits)
  show ?thesis
  proof (cases "ledger = []")
    case True
    with assms(2) c have "ledger' = [b]" "sequence_number b = 0"
      by (auto simp: append_def Let_def)
    then show ?thesis
      by (simp add: chained_def)
  next
    case False
    note l = chained_latest [OF assms(1) False]
    from assms(2) c l have "ledger' = ledger @ [b]" "sequence_number b = length ledger"
      "previous_hash b = Some (current_hash (last ledger))"
      by (auto simp: append_def Let_def)
    with chained_snoc [OF assms(1), of b] show ?thesis
      by simp
  qed
qed

lemma chained_initialize: "chained ledger \<Longrightarrow> chained (initialize now ledger)"
  by (auto simp: initialize_def chained_def genesis_block_def)

lemma chained_apply_op: "chained ledger \<Longrightarrow> chained (apply_op H op ledger)"
proof (cases op)
  case (Initialize now)
  assume "chained ledger"
  then show ?thesis
    unfolding Initialize by (simp add: chained_initialize)
next
  case (Append now etype entype enid pl)
  assume c: "chained ledger"
  show ?thesis
  proof (cases "append H now etype entype enid pl ledger")
    case (Inl e)
    with c show ?thesis unfolding Append by simp
  next
    case (Inr r)
    then obtain b ledger' where "append H now etype entype enid pl ledger = Inr (b, ledger')"
      by (cases r) simp
    with chained_append [OF c this] show ?thesis
      unfolding Append by simp
  qed
qed

lemma chained_replay: "chained ledger \<Longrightarrow> chained (replay H ops ledger)"
  unfolding replay_def
  by (induction ops arbitrary: ledger) (simp_all add: chained_apply_op)

lemma apply_op_extends: "\<exists>new. apply_op H op ledger = ledger @ new"
proof (cases op)
  case (Initialize now)
  then show ?thesis
    by (simp add: initialize_def)
next
  case (Append now etype entype enid pl)
  then show ?thesis
    by (auto simp: append_def Let_def split: option.splits)
qed

lemma replay_extends: "\<exists>new. replay H ops ledger = ledger @ new"
  unfolding replay_def
proof (induction ops arbitrary: ledger)
  case Nil
  then show ?case by simp
next
  case (Cons op ops)
  obtain new where "apply_op H op ledger = ledger @ new"
    using apply_op_extends by blast
  moreover obtain new' where "fold (apply_op H) ops (ledger @ new) = (ledger @ new) @ new'"
    using Cons.IH by blast
  ultimately show ?case by simp
qed

lemma replay_append: "replay H (ops @ later) ledger = replay H later (replay H ops ledger)"
  by (simp add: replay_def)


text \<open>
  C2. In every ledger reached from the empty one by bootstrap and append operations,
  the sequence numbers of the stored blocks are 0, 1, ..., N in this order, without a
  gap; the stored previous hash of every block but the first is the stored hash of the
  block before it; and whatever operations follow, every block stored so far is found
  unchanged at its place, its hash included: no operation recomputes or mutates it.
\<close>

theorem reachable_ledger_is_chained:
  "map sequence_number (replay H ops []) = [0..<length (replay H ops [])] \<and>
   (0 < n \<and> n < length (replay H ops []) \<longrightarrow>
      previous_hash (replay H ops [] ! n) = Some (current_hash (replay H ops [] ! (n - 1)))) \<and>
   (n < length (replay H ops []) \<longrightarrow>
      replay H (ops @ later) [] ! n = replay H ops [] ! n \<and>
      current_hash (replay H (ops @ later) [] ! n) = current_hash (replay H ops [] ! n)) \<and>
   take (length (replay H ops [])) (replay H (ops @ later) []) = replay H ops []"
proof -
  have "chained []"
    by (simp add: chained_def)
  then have c: "chained (replay H ops [])"
    by (rule chained_replay)
  obtain new where new: "replay H (ops @ later) [] = replay H ops [] @ new"
    using replay_extends [of H later "replay H ops []"] by (auto simp: replay_append)
  have "n < length (replay H ops []) \<longrightarrow> replay H (ops @ later) [] ! n = replay H ops [] ! n"
    by (simp add: new nth_append)
  moreover have "take (length (replay H ops [])) (replay H (ops @ later) []) = replay H ops []"
    by (simp add: new)
  ultimately show ?thesis
    using c unfolding chained_def by auto
qed

theorem reachable_ledger_is_chained_witness:
  "length (replay demo_hasher demo_ops []) = 3 \<and>
   map sequence_number (replay demo_hasher demo_ops []) = [0, 1, 2] \<and>
   previous_hash (replay demo_hasher demo_ops [] ! 2) =
     Some (current_hash (replay demo_hasher demo_ops [] ! (2 - 1))) \<and>
   replay demo_hasher (demo_ops @ [Initialize ''t3'', Append ''t4'' ''no_face'' ''attempt''
       (Some ''a2'') []]) [] ! 2 = replay demo_hasher demo_ops [] ! 2 \<and>
   length (replay demo_hasher (demo_ops @ [Initialize ''t3'', Append ''t4'' ''no_face''
       ''attempt'' (Some ''a2'') []]) []) = 4"
proof -
  have len: "length (replay demo_hasher demo_ops []) = 3"
    by code_simp
  have len': "length (replay demo_hasher (demo_ops @ [Initialize ''t3'', Append ''t4''
       ''no_face'' ''attempt'' (Some ''a2'') []]) []) = 4"
    by code_simp
  have "[0..<3] = [0, 1, 2]"
    by code_simp
  then show ?thesis
    using reachable_ledger_is_chained [of demo_hasher demo_ops 2
        "[Initialize ''t3'', Append ''t4'' ''no_face'' ''attempt'' (Some ''a2'') []]"]
      len len'
    by simp
qed


























section \<open>Proofs: the genesis rows of the SQL scripts\<close>

text \<open>
  C6. The code departs from the claim. The bootstrap of the ledger that is among the
  sources is the \<open>INSERT\<close> of the genesis row. Step 7 of \<open>MANUAL_SETUP.sql\<close> writes a
  hash of 68 characters into \<open>current_hash VARCHAR(64)\<close>: whatever the table holds, the
  statement is an error and no genesis block is created. The \<open>INSERT\<close> of
  \<open>seed_data.sql\<close> into the table of \<open>schema.sql\<close> writes 83 characters and is an error
  as well; in that table a genesis row with \<open>previous_hash\<close> \<open>NULL\<close> is rejected even when
  its hash fits. A genesis row of step 7 whose hash fits is inserted into the empty
  table, and running the same \<open>INSERT\<close> a second time is an error, not a no-op.
\<close>

theorem genesis_insert_is_rejected:
  "ar_current_hash genesis_row_manual_setup = Some GENESIS_HASH \<and> length GENESIS_HASH = 68 \<and>
   insert_manual_setup genesis_row_manual_setup tbl = Inl (StringTooLong ''current_hash'' 64) \<and>
   insert_schema genesis_row_seed_data tbl' = Inl (StringTooLong ''current_hash'' 64) \<and>
   insert_schema
       (genesis_row_seed_data\<lparr>cr_previous_hash := None, cr_current_hash := Some ''genesis''\<rparr>) [] =
     Inl (NotNullViolation ''previous_hash'') \<and>
   insert_manual_setup genesis_row_fitting [] = Inr [genesis_row_fitting] \<and>
   insert_manual_setup genesis_row_fitting [genesis_row_fitting] =
     Inl (UniqueViolation ''current_hash'')"
  by (simp add: insert_manual_setup_def insert_schema_def varchar_def genesis_row_manual_setup_def
      genesis_row_seed_data_def genesis_row_fitting_def GENESIS_HASH_def)
end
